theory Spec2Isabelle
  imports
    Main
    "HOL-Library.AList"
    "HOL-Library.Char_ord"
    "HOL-Library.List_Lexorder"
    "HOL-Library.Multiset"
begin

section \<open>tmuxer: project discovery and session orchestration\<close>

text \<open>
  The repository holds two revisions of the same program: \<^verbatim>\<open>src/main.go\<close> and
  \<^verbatim>\<open>src/unnamed/part_000\<close>. Functions that differ between them are modelled twice,
  with the suffix \<open>_main\<close> for \<^verbatim>\<open>main.go\<close> and \<open>_rev\<close> for the revised file
  \<^verbatim>\<open>part_000\<close>; functions that are textually the same in both are modelled once.
\<close>

subsection \<open>Data model\<close>

record Project =
  Name :: string
  FullPath :: string
  HomePath :: string

record Config =
  ProjectBase :: "string list"

text \<open>What the program does to the outside, in the order it does it.\<close>

datatype event =
    EvWalk string string
  | EvPrint string
  | EvExec "string list"
  | EvFind "string list"

text \<open>
  Everything the program reads from its surroundings. \<open>UserHomeDir\<close> and \<open>Getwd\<close> are
  \<open>None\<close> when the call returns an error. \<open>GlobWalk_fs base pattern\<close> lists the paths the
  glob walk over \<^verbatim>\<open>os.DirFS(base)\<close> hands to its callback, in walk order, with the error
  the walk itself ends with, if any. \<open>Exec k argv\<close> is the combined output of the \<open>k\<close>-th
  external command and whether it failed. \<open>map_seed\<close> fixes the order in which a
  \<^verbatim>\<open>range\<close> over a Go map visits the entries, which the language leaves open.
  \<open>Map_unicode_ToLower\<close> stands for \<^verbatim>\<open>strings.Map(unicode.ToLower, s)\<close>, the case tables
  of the library, which are not reproduced here.
\<close>

record world =
  UserHomeDir :: "string option"
  Getwd :: "string option"
  Getenv_TMUX :: string
  flag_config :: string
  flag_base :: "string list"
  ReadConfig :: "string \<Rightarrow> string + string list"
  GlobWalk_fs :: "string \<Rightarrow> string \<Rightarrow> string list \<times> string option"
  filepath_Rel :: "string \<Rightarrow> string \<Rightarrow> string + string"
  map_seed :: "nat list"
  Find :: "Project list \<Rightarrow> string + nat"
  Exec :: "nat \<Rightarrow> string list \<Rightarrow> string \<times> bool"
  Map_unicode_ToLower :: "string \<Rightarrow> string"

subsection \<open>Strings\<close>

definition nl :: string where
  "nl = [CHR 0x0A]"

definition HasPrefix :: "string \<Rightarrow> string \<Rightarrow> bool" where
  "HasPrefix s p = (take (length p) s = p)"

fun Contains :: "string \<Rightarrow> string \<Rightarrow> bool" where
  "Contains [] sub = (sub = [])"
| "Contains (c # cs) sub = (HasPrefix (c # cs) sub \<or> Contains cs sub)"

fun Split :: "char \<Rightarrow> string \<Rightarrow> string list" where
  "Split sep [] = [[]]"
| "Split sep (c # cs) =
     (if c = sep then [] # Split sep cs
      else (case Split sep cs of
              [] \<Rightarrow> [[c]]
            | f # fs \<Rightarrow> (c # f) # fs))"

fun join_slash :: "string list \<Rightarrow> string" where
  "join_slash [] = []"
| "join_slash [e] = e"
| "join_slash (e # es) = e @ ''/'' @ join_slash es"

text \<open>
  \<^verbatim>\<open>strings.ToLower\<close>: a string whose bytes are all below \<^verbatim>\<open>utf8.RuneSelf\<close> has its
  bytes \<open>A\<close>..\<open>Z\<close> lowered and the others kept; any other string is mapped rune by rune
  through \<^verbatim>\<open>unicode.ToLower\<close>.
\<close>

definition lower_char :: "char \<Rightarrow> char" where
  "lower_char c =
     (if CHR ''A'' \<le> c \<and> c \<le> CHR ''Z'' then char_of (of_char c + (32::nat)) else c)"

definition isASCII :: "string \<Rightarrow> bool" where
  "isASCII s = list_all (\<lambda>c. of_char c < (128::nat)) s"

definition ToLower :: "world \<Rightarrow> string \<Rightarrow> string" where
  "ToLower w s = (if isASCII s then map lower_char s else Map_unicode_ToLower w s)"

subsection \<open>The \<^verbatim>\<open>path\<close> package\<close>

text \<open>
  \<^verbatim>\<open>path.Clean\<close>: empty elements and \<open>.\<close> are dropped, \<open>..\<close> removes the element before
  it, is dropped at the root, and is kept at the front of a path that is not rooted; the
  empty result is \<open>.\<close>.
\<close>

definition clean_step :: "bool \<Rightarrow> string list \<Rightarrow> string \<Rightarrow> string list" where
  "clean_step rooted out e =
     (if e = ''..'' then
        (if out \<noteq> [] \<and> last out \<noteq> ''..'' then butlast out
         else if rooted then out
         else out @ [''..''])
      else out @ [e])"

definition path_Clean :: "string \<Rightarrow> string" where
  "path_Clean path =
     (if path = [] then ''.''
      else
        let rooted = (hd path = CHR ''/'');
            elems = filter (\<lambda>e. e \<noteq> [] \<and> e \<noteq> ''.'') (Split CHR ''/'' path);
            out = foldl (clean_step rooted) [] elems
        in if rooted then CHR ''/'' # join_slash out
           else if out = [] then ''.''
           else join_slash out)"

text \<open>\<^verbatim>\<open>path.Split\<close> cuts after the last slash; \<^verbatim>\<open>path.Dir\<close> cleans the first part.\<close>

definition path_Split :: "string \<Rightarrow> string \<times> string" where
  "path_Split path =
     (rev (dropWhile (\<lambda>c. c \<noteq> CHR ''/'') (rev path)),
      rev (takeWhile (\<lambda>c. c \<noteq> CHR ''/'') (rev path)))"

definition path_Dir :: "string \<Rightarrow> string" where
  "path_Dir path = path_Clean (fst (path_Split path))"

definition path_Base :: "string \<Rightarrow> string" where
  "path_Base path =
     (if path = [] then ''.''
      else
        let stripped = rev (dropWhile (\<lambda>c. c = CHR ''/'') (rev path));
            final = snd (path_Split stripped)
        in if final = [] then ''/'' else final)"

text \<open>
  \<^verbatim>\<open>path.Join\<close> skips leading empty elements, joins the rest with slashes and cleans
  the result; on Unix \<^verbatim>\<open>filepath.Join\<close> and \<^verbatim>\<open>filepath.Clean\<close> do the same.
\<close>

definition path_Join :: "string list \<Rightarrow> string" where
  "path_Join elem =
     (if concat elem = [] then []
      else path_Clean (join_slash (dropWhile (\<lambda>e. e = []) elem)))"

subsection \<open>Pattern splitting and classification\<close>

text \<open>
  \<^verbatim>\<open>doublestar.SplitPattern\<close> splits at the last slash before the first unescaped
  meta character; a backslash skips the character after it.
\<close>

fun split_scan :: "string \<Rightarrow> nat \<Rightarrow> nat option \<Rightarrow> nat option" where
  "split_scan [] i splitIdx = splitIdx"
| "split_scan (c # cs) i splitIdx =
     (if c = CHR 0x5C then split_scan (drop 1 cs) (i + 2) splitIdx
      else if c = CHR ''/'' then split_scan cs (i + 1) (Some i)
      else if c = CHR ''*'' \<or> c = CHR ''?'' \<or> c = CHR ''['' \<or> c = CHR ''{'' then splitIdx
      else split_scan cs (i + 1) splitIdx)"

definition SplitPattern :: "string \<Rightarrow> string \<times> string" where
  "SplitPattern p =
     (case split_scan p 0 None of
        None \<Rightarrow> (''.'', p)
      | Some splitIdx \<Rightarrow>
          if splitIdx = 0 then (''/'', drop 1 p)
          else (take splitIdx p, drop (splitIdx + 1) p))"

text \<open>
  Whether the regular expression
  \<^verbatim>\<open>(\*|\*\*|\?|\[.*\]|\{[^}]*\})\<close> matches somewhere in the string: a star, a question
  mark, an opening bracket with a closing one later on the same line, or an opening brace
  with a closing one later.
\<close>

fun bracket_match :: "string \<Rightarrow> bool" where
  "bracket_match [] = False"
| "bracket_match (c # cs) =
     ((c = CHR ''['' \<and> CHR '']'' \<in> set (takeWhile (\<lambda>x. x \<noteq> CHR 0x0A) cs))
      \<or> bracket_match cs)"

fun brace_match :: "string \<Rightarrow> bool" where
  "brace_match [] = False"
| "brace_match (c # cs) = ((c = CHR ''{'' \<and> CHR ''}'' \<in> set cs) \<or> brace_match cs)"

definition regex_match :: "string \<Rightarrow> bool" where
  "regex_match s =
     (CHR ''*'' \<in> set s \<or> CHR ''?'' \<in> set s \<or> bracket_match s \<or> brace_match s)"

definition patternUsed :: "string \<Rightarrow> bool" where
  "patternUsed pattern = regex_match (path_Base pattern)"

subsection \<open>Project resolver\<close>

text \<open>\<^verbatim>\<open>homedir, _ := os.UserHomeDir()\<close>: the error is dropped, the string is empty then.\<close>

definition homedir :: "world \<Rightarrow> string" where
  "homedir w = (case UserHomeDir w of None \<Rightarrow> [] | Some h \<Rightarrow> h)"

type_synonym projmap = "(string \<times> Project) list"

text \<open>
  The callback of \<^verbatim>\<open>main.go\<close>: only a match of a glob pattern is stored, under the
  directory of the match.
\<close>

definition callback_main ::
  "world \<Rightarrow> string \<Rightarrow> bool \<Rightarrow> projmap \<Rightarrow> string \<Rightarrow> projmap \<times> string option" where
  "callback_main w base used ret p =
     (if used then
        (let fullpath = path_Join [base, path_Dir p]
         in case filepath_Rel w (homedir w) fullpath of
              Inl err \<Rightarrow> (ret, Some err)
            | Inr rel \<Rightarrow>
                (AList.update fullpath
                   \<lparr>Name = path_Dir p, FullPath = fullpath, HomePath = rel\<rparr> ret, None))
      else (ret, None))"

text \<open>
  The callback of the revised file: every match is stored; a match of a glob pattern is
  named after its directory, or after the base when it has no slash.
\<close>

definition project_name_rev :: "string \<Rightarrow> bool \<Rightarrow> string \<Rightarrow> string" where
  "project_name_rev base used p =
     (if used then
        (if \<not> Contains p ''/'' then path_Base base else path_Dir p)
      else p)"

definition callback_rev ::
  "world \<Rightarrow> string \<Rightarrow> bool \<Rightarrow> projmap \<Rightarrow> string \<Rightarrow> projmap \<times> string option" where
  "callback_rev w base used ret p =
     (let name = project_name_rev base used p;
          fullpath = path_Join [base, name]
      in case filepath_Rel w (homedir w) fullpath of
           Inl err \<Rightarrow> (ret, Some err)
         | Inr rel \<Rightarrow>
             (AList.update fullpath
                \<lparr>Name = name, FullPath = fullpath, HomePath = rel\<rparr> ret, None))"

text \<open>
  \<^verbatim>\<open>doublestar.GlobWalk\<close> calls the callback on each match and stops at the first error
  the callback returns; otherwise it ends with the error of the walk itself.
\<close>

fun walk_matches ::
  "(projmap \<Rightarrow> string \<Rightarrow> projmap \<times> string option) \<Rightarrow> projmap \<Rightarrow> string list \<Rightarrow>
   string option \<Rightarrow> projmap \<times> string option" where
  "walk_matches cb ret [] walkerr = (ret, walkerr)"
| "walk_matches cb ret (p # ps) walkerr =
     (case cb ret p of
        (ret', Some err) \<Rightarrow> (ret', Some err)
      | (ret', None) \<Rightarrow> walk_matches cb ret' ps walkerr)"

definition GlobWalk ::
  "world \<Rightarrow> string \<Rightarrow> string \<Rightarrow> (projmap \<Rightarrow> string \<Rightarrow> projmap \<times> string option) \<Rightarrow>
   projmap \<Rightarrow> projmap \<times> string option" where
  "GlobWalk w base pattern cb ret =
     (case GlobWalk_fs w base pattern of
        (matches, walkerr) \<Rightarrow> walk_matches cb ret matches walkerr)"

text \<open>
  One turn of the loop over \<^verbatim>\<open>cfg.ProjectBase\<close>. The value \<^verbatim>\<open>GlobWalk\<close> returns is
  not assigned in the source; \<open>resolve_base\<close> keeps it beside the map only so that it
  can be spoken about, and \<open>resolve_all\<close> drops it as the loop does.
\<close>

definition resolve_base ::
  "(world \<Rightarrow> string \<Rightarrow> bool \<Rightarrow> projmap \<Rightarrow> string \<Rightarrow> projmap \<times> string option) \<Rightarrow>
   world \<Rightarrow> projmap \<Rightarrow> string \<Rightarrow> projmap \<times> string option" where
  "resolve_base cb w ret basePattern =
     (case SplitPattern basePattern of
        (base, pattern) \<Rightarrow>
          GlobWalk w base pattern (cb w base (patternUsed pattern)) ret)"

definition resolve_all ::
  "(world \<Rightarrow> string \<Rightarrow> bool \<Rightarrow> projmap \<Rightarrow> string \<Rightarrow> projmap \<times> string option) \<Rightarrow>
   world \<Rightarrow> string list \<Rightarrow> projmap" where
  "resolve_all cb w bases = foldl (\<lambda>ret bp. fst (resolve_base cb w ret bp)) [] bases"

text \<open>The keys that the turn for one base pattern stores when it starts on an empty map.\<close>

definition stored_by ::
  "(world \<Rightarrow> string \<Rightarrow> bool \<Rightarrow> projmap \<Rightarrow> string \<Rightarrow> projmap \<times> string option) \<Rightarrow>
   world \<Rightarrow> string \<Rightarrow> string set" where
  "stored_by cb w basePattern = fst ` set (fst (resolve_base cb w [] basePattern))"

definition walk_events :: "string list \<Rightarrow> event list" where
  "walk_events bases =
     map (\<lambda>bp. EvWalk (fst (SplitPattern bp)) (snd (SplitPattern bp))) bases"

text \<open>
  \<^verbatim>\<open>for _, v := range ret\<close>: the entries in an order the seed picks. Whatever the seed,
  each entry is visited once.
\<close>

fun pick_order :: "nat list \<Rightarrow> 'a list \<Rightarrow> 'a list" where
  "pick_order seed [] = []"
| "pick_order [] (x # xs) = x # xs"
| "pick_order (k # ks) (x # xs) =
     (let i = k mod length (x # xs)
      in ((x # xs) ! i) # pick_order ks (take i (x # xs) @ drop (Suc i) (x # xs)))"

definition range_values :: "world \<Rightarrow> projmap \<Rightarrow> Project list" where
  "range_values w ret = pick_order (map_seed w) (map snd ret)"

text \<open>
  \<^verbatim>\<open>sort.Slice\<close>, as the insertion sort the library runs on a slice of at most twelve
  elements: each element moves left while the comparison holds against its left neighbour.
  \<open>insert_left\<close> works on the sorted prefix in reverse. Every comparison in the
  source prints the name of the moving element; \<open>insert_prints\<close> lists those lines.
\<close>

fun insert_left :: "('a \<Rightarrow> 'a \<Rightarrow> bool) \<Rightarrow> 'a \<Rightarrow> 'a list \<Rightarrow> 'a list" where
  "insert_left lt x [] = [x]"
| "insert_left lt x (y # ys) =
     (if lt x y then y # insert_left lt x ys else x # y # ys)"

definition sort_Slice :: "('a \<Rightarrow> 'a \<Rightarrow> bool) \<Rightarrow> 'a list \<Rightarrow> 'a list" where
  "sort_Slice lt xs = rev (foldl (\<lambda>pre x. insert_left lt x pre) [] xs)"

fun insert_prints :: "(Project \<Rightarrow> Project \<Rightarrow> bool) \<Rightarrow> Project \<Rightarrow> Project list \<Rightarrow> event list" where
  "insert_prints lt x [] = []"
| "insert_prints lt x (y # ys) =
     EvPrint (Name x @ nl) # (if lt x y then insert_prints lt x ys else [])"

fun sort_prints :: "(Project \<Rightarrow> Project \<Rightarrow> bool) \<Rightarrow> Project list \<Rightarrow> Project list \<Rightarrow> event list" where
  "sort_prints lt pre [] = []"
| "sort_prints lt pre (x # xs) =
     insert_prints lt x pre @ sort_prints lt (insert_left lt x pre) xs"

definition name_less :: "world \<Rightarrow> Project \<Rightarrow> Project \<Rightarrow> bool" where
  "name_less w a b = (ToLower w (Name a) > ToLower w (Name b))"

text \<open>
  \<^verbatim>\<open>findProjectDirectories\<close> returns the slice, the error (always \<^verbatim>\<open>nil\<close>) and, here,
  what it did on the way.
\<close>

definition findProjectDirectories_main ::
  "world \<Rightarrow> Config \<Rightarrow> Project list \<times> string option \<times> event list" where
  "findProjectDirectories_main w cfg =
     (let ret = resolve_all callback_main w (ProjectBase cfg);
          res = range_values w ret
      in (res, None, walk_events (ProjectBase cfg)))"

definition findProjectDirectories_rev ::
  "world \<Rightarrow> Config \<Rightarrow> Project list \<times> string option \<times> event list" where
  "findProjectDirectories_rev w cfg =
     (let ret = resolve_all callback_rev w (ProjectBase cfg);
          res = range_values w ret
      in (sort_Slice (name_less w) res, None,
          walk_events (ProjectBase cfg) @ sort_prints (name_less w) [] res))"

subsection \<open>Path normalizer and configuration\<close>

text \<open>\<^verbatim>\<open>filepath.Abs\<close> on Unix: a rooted path is cleaned, any other is joined to the
  working directory, and the call fails when that cannot be had.\<close>

definition filepath_Abs :: "world \<Rightarrow> string \<Rightarrow> string + string" where
  "filepath_Abs w path =
     (if HasPrefix path ''/'' then Inr (path_Clean path)
      else (case Getwd w of
              None \<Rightarrow> Inl ''getwd: no such file or directory''
            | Some wd \<Rightarrow> Inr (path_Join [wd, path])))"

definition expand_tilde :: "world \<Rightarrow> string \<Rightarrow> string" where
  "expand_tilde w path =
     (if HasPrefix path ''~'' then path_Join [homedir w, drop 1 path] else path)"

definition expand_HOME :: "world \<Rightarrow> string \<Rightarrow> string" where
  "expand_HOME w path =
     (if HasPrefix path ''$HOME'' then path_Join [homedir w, drop 5 path] else path)"

definition normalizePath :: "world \<Rightarrow> string \<Rightarrow> string + string" where
  "normalizePath w path = filepath_Abs w (expand_HOME w (expand_tilde w path))"

fun NormalizePaths_loop :: "world \<Rightarrow> string list \<Rightarrow> string + string list" where
  "NormalizePaths_loop w [] = Inr []"
| "NormalizePaths_loop w (b # bs) =
     (case normalizePath w b of
        Inl err \<Rightarrow> Inl err
      | Inr p \<Rightarrow>
          (case NormalizePaths_loop w bs of
             Inl err \<Rightarrow> Inl err
           | Inr ps \<Rightarrow> Inr (p # ps)))"

definition NormalizePaths :: "world \<Rightarrow> Config \<Rightarrow> string + Config" where
  "NormalizePaths w cfg =
     (case NormalizePaths_loop w (ProjectBase cfg) of
        Inl err \<Rightarrow> Inl err
      | Inr ps \<Rightarrow> Inr (cfg\<lparr>ProjectBase := ps\<rparr>))"

definition loadConfig :: "world \<Rightarrow> string \<Rightarrow> string + Config" where
  "loadConfig w configPath =
     (if configPath = [] \<or> configPath = ''-'' then Inr \<lparr>ProjectBase = []\<rparr>
      else (case ReadConfig w configPath of
              Inl err \<Rightarrow> Inl err
            | Inr bases \<Rightarrow> Inr \<lparr>ProjectBase = bases\<rparr>))"

definition mergeFlagsWithConfig :: "world \<Rightarrow> Config \<Rightarrow> Config" where
  "mergeFlagsWithConfig w config =
     (if length (flag_base w) > 0
      then config\<lparr>ProjectBase := ProjectBase config @ flag_base w\<rparr>
      else config)"

subsection \<open>Selection\<close>

datatype selection = SelErr string | SelOk Project | SelPanic

definition selectProjectDirectory :: "world \<Rightarrow> Project list \<Rightarrow> selection \<times> event list" where
  "selectProjectDirectory w projects =
     (case Find w projects of
        Inl err \<Rightarrow> (SelErr err, [EvFind (map Name projects)])
      | Inr idx \<Rightarrow>
          if idx < length projects
          then (SelOk (projects ! idx),
                [EvFind (map Name projects),
                 EvPrint (''Starting selected project: '' @ Name (projects ! idx) @ nl)])
          else (SelPanic, [EvFind (map Name projects)]))"

subsection \<open>Session orchestrator\<close>

definition bool_str :: "bool \<Rightarrow> string" where
  "bool_str b = (if b then ''true'' else ''false'')"

definition join_space :: "string list \<Rightarrow> string" where
  "join_space ws = concat (case ws of [] \<Rightarrow> [] | x # xs \<Rightarrow> x # map (\<lambda>y. '' '' @ y) xs)"

text \<open>The loop over the lines of the listing.\<close>

definition sessionExists :: "string \<Rightarrow> Project \<Rightarrow> bool" where
  "sessionExists output project =
     list_ex (\<lambda>line. Contains line (Name project)) (Split CHR 0x0A output)"

text \<open>\<^verbatim>\<open>runTmuxCommand\<close> as the \<open>k\<close>-th external command: the revised file runs
  \<^verbatim>\<open>tmux\<close> itself, \<^verbatim>\<open>main.go\<close> hands one joined line to \<^verbatim>\<open>sh -c\<close>.\<close>

definition runTmuxCommand_rev :: "world \<Rightarrow> nat \<Rightarrow> string list \<Rightarrow> string option \<times> event list" where
  "runTmuxCommand_rev w k targ =
     (if snd (Exec w k (''tmux'' # targ)) then Some ''exit status 1'' else None,
      [EvExec (''tmux'' # targ)])"

definition runTmuxCommand_main :: "world \<Rightarrow> nat \<Rightarrow> string list \<Rightarrow> string option \<times> event list" where
  "runTmuxCommand_main w k targ =
     (if snd (Exec w k [''sh'', ''-c'', join_space (''tmux'' # targ)])
      then Some ''exit status 1'' else None,
      [EvExec [''sh'', ''-c'', join_space (''tmux'' # targ)]])"

definition new_session_args :: "Project \<Rightarrow> string list" where
  "new_session_args project =
     [''new-session'', ''-d'', ''-s'', Name project, ''-c'', FullPath project]"

text \<open>
  \<^verbatim>\<open>startOrAttachToTmux\<close> calls itself after a successful \<^verbatim>\<open>new-session\<close>, with
  nothing that counts the calls, so it is a partial function: \<open>None\<close> is a run that
  never returns. \<open>k\<close> counts the external commands run so far and \<open>tr\<close> holds the
  events so far.
\<close>

partial_function (option) startOrAttachToTmux_rev ::
  "world \<Rightarrow> Project \<Rightarrow> nat \<Rightarrow> event list \<Rightarrow> (string option \<times> event list) option" where
  "startOrAttachToTmux_rev w project k tr =
     (let inTmux = (Getenv_TMUX w \<noteq> []);
          output = fst (Exec w k [''tmux'', ''list-sessions'']);
          failed = snd (Exec w k [''tmux'', ''list-sessions'']);
          noserver = Contains output ''no server running'';
          tr1 = tr @ [EvExec [''tmux'', ''list-sessions''], EvPrint (bool_str noserver @ nl)]
      in if failed \<and> \<not> noserver then Some (Some ''failed to list sessions'', tr1)
         else if sessionExists output project \<and> inTmux then
           Some (fst (runTmuxCommand_rev w (k + 1) [''switch-client'', ''-t'', Name project]),
                 tr1 @ snd (runTmuxCommand_rev w (k + 1) [''switch-client'', ''-t'', Name project]))
         else if sessionExists output project then
           Some (fst (runTmuxCommand_rev w (k + 1) [''attach-session'', ''-t'', Name project]),
                 tr1 @ snd (runTmuxCommand_rev w (k + 1) [''attach-session'', ''-t'', Name project]))
         else
           (case fst (runTmuxCommand_rev w (k + 1) (new_session_args project)) of
              Some err \<Rightarrow>
                Some (Some err, tr1 @ snd (runTmuxCommand_rev w (k + 1) (new_session_args project)))
            | None \<Rightarrow>
                startOrAttachToTmux_rev w project (k + 2)
                  (tr1 @ snd (runTmuxCommand_rev w (k + 1) (new_session_args project)))))"

text \<open>
  In \<^verbatim>\<open>main.go\<close> the terminal is reset after the listing (the second command of the
  turn), and a session that exists is answered by printing the command line.
\<close>

partial_function (option) startOrAttachToTmux_main ::
  "world \<Rightarrow> Project \<Rightarrow> nat \<Rightarrow> event list \<Rightarrow> (string option \<times> event list) option" where
  "startOrAttachToTmux_main w project k tr =
     (let inTmux = (Getenv_TMUX w \<noteq> []);
          output = fst (Exec w k [''tmux'', ''list-sessions'']);
          failed = snd (Exec w k [''tmux'', ''list-sessions'']);
          noserver = Contains output ''no server running'';
          tr1 = tr @ [EvExec [''tmux'', ''list-sessions''], EvPrint (bool_str noserver @ nl)];
          tr2 = tr1 @ [EvExec [''reset'']]
      in if failed \<and> \<not> noserver then Some (Some ''failed to list sessions'', tr1)
         else if sessionExists output project \<and> inTmux then
           Some (None, tr2 @ [EvPrint (''tmux switch-client -t '' @ Name project)])
         else if sessionExists output project then
           Some (None, tr2 @ [EvPrint (''tmux attach-session -t '' @ Name project)])
         else
           (case fst (runTmuxCommand_main w (k + 2) (new_session_args project)) of
              Some err \<Rightarrow>
                Some (Some err, tr2 @ snd (runTmuxCommand_main w (k + 2) (new_session_args project)))
            | None \<Rightarrow>
                startOrAttachToTmux_main w project (k + 3)
                  (tr2 @ snd (runTmuxCommand_main w (k + 2) (new_session_args project)))))"

subsection \<open>The program\<close>

text \<open>
  \<^verbatim>\<open>main\<close> up to the resolver is the same in both files. \<open>main_prefix\<close> is that part:
  either the exit status and what was printed, or the normalized configuration.
\<close>

definition main_prefix :: "world \<Rightarrow> (nat \<times> event list) + Config" where
  "main_prefix w =
     (case normalizePath w (flag_config w) of
        Inl err \<Rightarrow> Inl (1, [EvPrint (''Error:  '' @ err @ nl)])
      | Inr cfgPath \<Rightarrow>
          (case loadConfig w cfgPath of
             Inl err \<Rightarrow> Inl (1, [EvPrint (''Error:  '' @ err @ nl)])
           | Inr config0 \<Rightarrow>
               (let config = mergeFlagsWithConfig w config0
                in if length (ProjectBase config) = 0
                   then Inl (1, [EvPrint (''Error: No project base path provided'' @ nl)])
                   else (case NormalizePaths w config of
                           Inl err \<Rightarrow>
                             Inl (1, [EvPrint (''Error: Failed to normalize config path: '' @ err)])
                         | Inr config' \<Rightarrow> Inr config'))))"

definition main_suffix ::
  "(world \<Rightarrow> Config \<Rightarrow> Project list \<times> string option \<times> event list) \<Rightarrow>
   (world \<Rightarrow> Project \<Rightarrow> nat \<Rightarrow> event list \<Rightarrow> (string option \<times> event list) option) \<Rightarrow>
   world \<Rightarrow> Config \<Rightarrow> (nat \<times> event list) option" where
  "main_suffix resolver orchestrator w config =
     (case resolver w config of
        (projects, Some err, ev) \<Rightarrow>
          Some (1, ev @ [EvPrint (''Error: Failed to normalize config path: '' @ err)])
      | (projects, None, ev) \<Rightarrow>
          (case selectProjectDirectory w projects of
             (SelErr err, ev') \<Rightarrow> Some (1, ev @ ev' @ [EvPrint (''Error: '' @ err @ nl)])
           | (SelPanic, ev') \<Rightarrow> Some (2, ev @ ev')
           | (SelOk projectDir, ev') \<Rightarrow>
               (case orchestrator w projectDir 0 (ev @ ev') of
                  None \<Rightarrow> None
                | Some (Some err, tr) \<Rightarrow> Some (1, tr @ [EvPrint (''Error: '' @ err @ nl)])
                | Some (None, tr) \<Rightarrow> Some (0, tr))))"

definition main_main :: "world \<Rightarrow> (nat \<times> event list) option" where
  "main_main w =
     (case main_prefix w of
        Inl stop \<Rightarrow> Some stop
      | Inr config \<Rightarrow> main_suffix findProjectDirectories_main startOrAttachToTmux_main w config)"

definition main_rev :: "world \<Rightarrow> (nat \<times> event list) option" where
  "main_rev w =
     (case main_prefix w of
        Inl stop \<Rightarrow> Some stop
      | Inr config \<Rightarrow> main_suffix findProjectDirectories_rev startOrAttachToTmux_rev w config)"

subsection \<open>The map invariant\<close>

text \<open>Every key of the map is the \<open>FullPath\<close> of its entry, and no key occurs twice.\<close>

definition keyed :: "projmap \<Rightarrow> bool" where
  "keyed ret = (distinct (map fst ret) \<and> list_all (\<lambda>kv. FullPath (snd kv) = fst kv) ret)"

subsection \<open>Reading the orchestrator's trace\<close>

definition listing :: "world \<Rightarrow> nat \<Rightarrow> string" where
  "listing w k = fst (Exec w k [''tmux'', ''list-sessions''])"

text \<open>The listing is given up only when the command failed for another reason than a
  missing server.\<close>

definition listing_failed :: "world \<Rightarrow> nat \<Rightarrow> bool" where
  "listing_failed w k =
     (snd (Exec w k [''tmux'', ''list-sessions''])
      \<and> \<not> Contains (listing w k) ''no server running'')"

definition cycle_events :: "world \<Rightarrow> nat \<Rightarrow> event list" where
  "cycle_events w k =
     [EvExec [''tmux'', ''list-sessions''],
      EvPrint (bool_str (Contains (listing w k) ''no server running'') @ nl)]"

definition create_rev :: "Project \<Rightarrow> string list" where
  "create_rev project = ''tmux'' # new_session_args project"

definition create_main :: "Project \<Rightarrow> string list" where
  "create_main project = [''sh'', ''-c'', join_space (''tmux'' # new_session_args project)]"

definition client_verb :: "world \<Rightarrow> string" where
  "client_verb w = (if Getenv_TMUX w \<noteq> [] then ''switch-client'' else ''attach-session'')"

fun is_create :: "event \<Rightarrow> bool" where
  "is_create (EvExec argv) = list_ex (\<lambda>a. Contains a ''new-session'') argv"
| "is_create (EvWalk b p) = False"
| "is_create (EvPrint s) = False"
| "is_create (EvFind ns) = False"

definition creations :: "event list \<Rightarrow> nat" where
  "creations tr = length (filter is_create tr)"



fun is_attach :: "event \<Rightarrow> bool" where
  "is_attach (EvExec argv) = list_ex (\<lambda>a. Contains a ''attach-session'') argv"
| "is_attach (EvWalk b p) = False"
| "is_attach (EvPrint s) = False"
| "is_attach (EvFind ns) = False"

subsection \<open>Example surroundings\<close>

text \<open>
  \<^verbatim>\<open>filepath.Rel\<close> on the inputs of the examples: a target at or below the base path,
  and the empty base path that \<^verbatim>\<open>os.UserHomeDir\<close> leaves behind on failure, against
  which no rooted target can be made relative.
\<close>

definition Rel_under :: "string \<Rightarrow> string \<Rightarrow> string + string" where
  "Rel_under basepath targpath =
     (if targpath = basepath then Inr ''.''
      else if basepath \<noteq> [] \<and> HasPrefix targpath (basepath @ ''/'')
      then Inr (drop (length basepath + 1) targpath)
      else Inl (''Rel: can't make '' @ targpath @ '' relative to '' @ basepath))"

text \<open>
  A home directory with a repository \<^verbatim>\<open>/home/u/code\<close> that holds two more, a single
  repository below \<^verbatim>\<open>/home/u/solo\<close>, a plain directory \<^verbatim>\<open>/home/u/work/notes\<close> beside a
  repository \<^verbatim>\<open>/home/u/work/Project-A\<close>, two repositories below \<^verbatim>\<open>/home/u/docs\<close>
  whose names start with the UTF-8 bytes of a capital E with acute and of a small c with
  cedilla, and a pattern the glob library rejects.
\<close>

definition Ecole :: string where
  "Ecole = [CHR 0xC3, CHR 0x89] @ ''cole''"

definition ca :: string where
  "ca = [CHR 0xC3, CHR 0xA7] @ ''a''"

definition fs0 :: "string \<Rightarrow> string \<Rightarrow> string list \<times> string option" where
  "fs0 base pattern =
     (if base = ''/home/u/code'' \<and> pattern = ''**/{.git}''
        then ([''.git'', ''project-a/.git'', ''Zeta/.git''], None)
      else if base = ''/home/u'' \<and> pattern = ''**/{.git}''
        then ([''code/.git'', ''code/project-a/.git'', ''code/Zeta/.git'', ''solo/app/.git'',
               ''work/Project-A/.git''], None)
      else if base = ''/home/u/work'' \<and> pattern = ''**/{.git}'' then ([''Project-A/.git''], None)
      else if base = ''/home/u/docs'' \<and> pattern = ''**/{.git}''
        then ([Ecole @ ''/.git'', ca @ ''/.git''], None)
      else if base = ''/home/u/code'' \<and> pattern = ''{.git}'' then ([''.git''], None)
      else if base = ''/home/u/code/project-a'' \<and> pattern = ''{.git}'' then ([''.git''], None)
      else if base = ''/home/u/solo'' \<and> pattern = ''**/{.git}'' then ([''app/.git''], None)
      else if base = ''/home/u/work'' \<and> pattern = ''notes'' then ([''notes''], None)
      else if base = ''/home/u/bad'' \<and> pattern = ''['' then ([], Some ''syntax error in pattern'')
      else ([], None))"

text \<open>
  The case mapping on the part of Unicode the examples use: ASCII, and the capital
  letters of the Latin-1 Supplement, whose UTF-8 form is \<^verbatim>\<open>0xC3\<close> and a byte from
  \<^verbatim>\<open>0x80\<close> to \<^verbatim>\<open>0x9E\<close> other than the multiplication sign \<^verbatim>\<open>0x97\<close>.
\<close>

fun lower_latin1 :: "string \<Rightarrow> string" where
  "lower_latin1 [] = []"
| "lower_latin1 [c] = [lower_char c]"
| "lower_latin1 (c # d # cs) =
     (if c = CHR 0xC3 \<and> (128::nat) \<le> of_char d \<and> of_char d \<le> (158::nat)
         \<and> of_char d \<noteq> (151::nat)
      then c # char_of (of_char d + (32::nat)) # lower_latin1 cs
      else lower_char c # lower_latin1 (d # cs))"

definition world0 :: world where
  "world0 =
     \<lparr>UserHomeDir = Some ''/home/u'', Getwd = Some ''/home/u'', Getenv_TMUX = [],
      flag_config = ''~/.config/tmux/tmuxer.yaml'', flag_base = [],
      ReadConfig = (\<lambda>path. Inr []), GlobWalk_fs = fs0, filepath_Rel = Rel_under,
      map_seed = [1], Find = (\<lambda>projects. Inr 0),
      Exec = (\<lambda>k argv. ([], False)), Map_unicode_ToLower = lower_latin1\<rparr>"

text \<open>The same surroundings with another multiplexer behind \<open>Exec\<close>.\<close>

definition world_tmux :: "(nat \<Rightarrow> string list \<Rightarrow> string \<times> bool) \<Rightarrow> world" where
  "world_tmux ex = world0\<lparr>Exec := ex\<rparr>"

text \<open>A server that already runs a session named after the project.\<close>

definition tmux_live :: "nat \<Rightarrow> string list \<Rightarrow> string \<times> bool" where
  "tmux_live k argv =
     (if argv = [''tmux'', ''list-sessions'']
      then (''project-a: 1 windows (created Sat Nov  1 10:00:00 2025)'' @ nl, False)
      else ([], False))"

text \<open>No server at first; once a session has been created it is listed under the
  project's name.\<close>

definition tmux_fresh :: "nat \<Rightarrow> string list \<Rightarrow> string \<times> bool" where
  "tmux_fresh k argv =
     (if argv = [''tmux'', ''list-sessions''] then
        (if k = 0 then (''no server running on /tmp/tmux-1000/default'' @ nl, True)
         else (''project-a: 1 windows (created Sat Nov  1 10:00:00 2025)'' @ nl, False))
      else ([], False))"

text \<open>
  No server at first; the session is stored under a name without the period, so the
  listing never contains the project's name, and a second \<^verbatim>\<open>new-session\<close> is refused
  as a duplicate.
\<close>

definition tmux_dot :: "nat \<Rightarrow> string list \<Rightarrow> string \<times> bool" where
  "tmux_dot k argv =
     (if argv = [''tmux'', ''list-sessions''] then
        (if k = 0 then (''no server running on /tmp/tmux-1000/default'' @ nl, True)
         else (''example_com: 1 windows (created Sat Nov  1 10:00:00 2025)'' @ nl, False))
      else if argv = [''reset''] then ([], False)
      else if k \<le> 2 then ([], False)
      else (''duplicate session: example_com'' @ nl, True))"

text \<open>No server, before and after: every command is answered with the same message.\<close>

definition tmux_none :: "nat \<Rightarrow> string list \<Rightarrow> string \<times> bool" where
  "tmux_none k argv = (''no server running on /tmp/tmux-1000/default'' @ nl, True)"

definition server :: Project where
  "server =
     \<lparr>Name = ''server'', FullPath = ''/home/u/code/server'', HomePath = ''code/server''\<rparr>"

definition project_a :: Project where
  "project_a =
     \<lparr>Name = ''project-a'', FullPath = ''/home/u/code/project-a'',
      HomePath = ''code/project-a''\<rparr>"

definition site :: Project where
  "site =
     \<lparr>Name = ''example.com'', FullPath = ''/home/u/code/example.com'',
      HomePath = ''code/example.com''\<rparr>"

section \<open>Properties\<close>

subsection \<open>Deduplication by full path\<close>

lemma keyed_Nil: "keyed []"
  by (simp add: keyed_def)

lemma list_all_update:
  "list_all P ret \<Longrightarrow> P (k, v) \<Longrightarrow> list_all P (AList.update k v ret)"
  by (induction ret) auto

lemma keyed_update: "keyed ret \<Longrightarrow> FullPath v = k \<Longrightarrow> keyed (AList.update k v ret)"
  by (simp add: keyed_def distinct_update list_all_update)

lemma keyed_FullPath: "keyed ret \<Longrightarrow> map FullPath (map snd ret) = map fst ret"
  by (induction ret) (auto simp: keyed_def)

lemma keyed_callback_main: "keyed ret \<Longrightarrow> keyed (fst (callback_main w base used ret p))"
  by (simp add: callback_main_def Let_def keyed_update split: sum.splits)

lemma keyed_callback_rev: "keyed ret \<Longrightarrow> keyed (fst (callback_rev w base used ret p))"
  by (simp add: callback_rev_def Let_def keyed_update split: sum.splits)

lemma keyed_walk_matches:
  "(\<And>r p. keyed r \<Longrightarrow> keyed (fst (cb r p))) \<Longrightarrow> keyed ret \<Longrightarrow>
   keyed (fst (walk_matches cb ret ps walkerr))"
proof (induction ps arbitrary: ret)
  case Nil
  then show ?case by simp
next
  case (Cons p ps)
  have k: "keyed (fst (cb ret p))" using Cons.prems by blast
  show ?case
  proof (cases "cb ret p")
    case (Pair ret' e)
    with k have k': "keyed ret'" by simp
    show ?thesis
    proof (cases e)
      case None
      with Pair show ?thesis using Cons.IH [OF Cons.prems(1) k'] by simp
    next
      case (Some err)
      with Pair k' show ?thesis by simp
    qed
  qed
qed

lemma keyed_resolve_base:
  "(\<And>base used r p. keyed r \<Longrightarrow> keyed (fst (cb w base used r p))) \<Longrightarrow> keyed ret \<Longrightarrow>
   keyed (fst (resolve_base cb w ret bp))"
  by (simp add: resolve_base_def GlobWalk_def keyed_walk_matches split: prod.splits)

lemma keyed_foldl:
  "(\<And>base used r p. keyed r \<Longrightarrow> keyed (fst (cb w base used r p))) \<Longrightarrow> keyed ret \<Longrightarrow>
   keyed (foldl (\<lambda>ret bp. fst (resolve_base cb w ret bp)) ret bases)"
  by (induction bases arbitrary: ret) (simp_all add: keyed_resolve_base)

lemma keyed_resolve_all:
  "(\<And>base used r p. keyed r \<Longrightarrow> keyed (fst (cb w base used r p))) \<Longrightarrow>
   keyed (resolve_all cb w bases)"
  unfolding resolve_all_def by (rule keyed_foldl) (simp_all add: keyed_Nil)

lemma mset_pick_order: "mset (pick_order seed xs) = mset xs"
proof (induction seed xs rule: pick_order.induct)
  case (3 k ks x xs)
  let ?ys = "x # xs"
  let ?i = "k mod length ?ys"
  have i: "?i < length ?ys" by simp
  have "mset ?ys = mset (take ?i ?ys @ (?ys ! ?i) # drop (Suc ?i) ?ys)"
    using id_take_nth_drop [OF i] by simp
  then have "mset ?ys = add_mset (?ys ! ?i) (mset (take ?i ?ys @ drop (Suc ?i) ?ys))"
    by simp
  with "3.IH" [of ?i] show ?case by (simp add: Let_def)
qed simp_all

lemma mset_insert_left: "mset (insert_left lt x ys) = add_mset x (mset ys)"
  by (induction ys) simp_all

lemma mset_foldl_insert:
  "mset (foldl (\<lambda>pre x. insert_left lt x pre) acc xs) = mset acc + mset xs"
  by (induction xs arbitrary: acc) (simp_all add: mset_insert_left)

lemma mset_sort_Slice: "mset (sort_Slice lt xs) = mset xs"
  by (simp add: sort_Slice_def mset_foldl_insert)

lemma distinct_map_mset: "mset xs = mset ys \<Longrightarrow> distinct (map f xs) = distinct (map f ys)"
proof -
  assume "mset xs = mset ys"
  then have "image_mset f (mset xs) = image_mset f (mset ys)" by simp
  then have "mset (map f xs) = mset (map f ys)" by (simp only: mset_map)
  then show ?thesis by (rule mset_eq_imp_distinct_iff)
qed

lemma distinct_FullPath_range:
  assumes "keyed ret"
  shows "distinct (map FullPath (range_values w ret))"
proof -
  have "distinct (map FullPath (map snd ret))"
    using assms keyed_FullPath [OF assms] by (simp only: keyed_def)
  moreover have "mset (range_values w ret) = mset (map snd ret)"
    by (simp only: range_values_def mset_pick_order)
  ultimately show ?thesis
    using distinct_map_mset [of "range_values w ret" "map snd ret" FullPath] by simp
qed

text \<open>What a callback stores does not depend on what the map held before.\<close>

lemma callback_main_keys:
  "fst ` set (fst (callback_main w base used ret p)) =
     fst ` set ret \<union> fst ` set (fst (callback_main w base used [] p))
   \<and> snd (callback_main w base used ret p) = snd (callback_main w base used [] p)"
  by (auto simp: callback_main_def Let_def dom_update split: sum.splits)

lemma callback_rev_keys:
  "fst ` set (fst (callback_rev w base used ret p)) =
     fst ` set ret \<union> fst ` set (fst (callback_rev w base used [] p))
   \<and> snd (callback_rev w base used ret p) = snd (callback_rev w base used [] p)"
  by (auto simp: callback_rev_def Let_def dom_update split: sum.splits)

lemma walk_matches_keys:
  assumes cb: "\<And>ret p. fst ` set (fst (cb ret p)) = fst ` set ret \<union> fst ` set (fst (cb [] p))
                 \<and> snd (cb ret p) = snd (cb [] p)"
  shows "fst ` set (fst (walk_matches cb ret ps walkerr)) =
           fst ` set ret \<union> fst ` set (fst (walk_matches cb [] ps walkerr))"
proof (induction ps arbitrary: ret)
  case Nil
  show ?case by simp
next
  case (Cons p ps)
  obtain r0 e0 where c0: "cb [] p = (r0, e0)" by (cases "cb [] p")
  obtain r1 e1 where c1: "cb ret p = (r1, e1)" by (cases "cb ret p")
  from cb [of ret p] c0 c1 have e: "e1 = e0" and k: "fst ` set r1 = fst ` set ret \<union> fst ` set r0"
    by simp_all
  show ?case
  proof (cases e0)
    case (Some err)
    with c0 c1 e k show ?thesis by simp
  next
    case None
    have "fst ` set (fst (walk_matches cb r1 ps walkerr)) =
            fst ` set r1 \<union> fst ` set (fst (walk_matches cb [] ps walkerr))"
      by (rule Cons.IH)
    moreover have "fst ` set (fst (walk_matches cb r0 ps walkerr)) =
            fst ` set r0 \<union> fst ` set (fst (walk_matches cb [] ps walkerr))"
      by (rule Cons.IH)
    ultimately show ?thesis using c0 c1 e k None by auto
  qed
qed

lemma resolve_base_keys:
  assumes cb: "\<And>base used ret p.
      fst ` set (fst (cb w base used ret p)) =
        fst ` set ret \<union> fst ` set (fst (cb w base used [] p))
      \<and> snd (cb w base used ret p) = snd (cb w base used [] p)"
  shows "fst ` set (fst (resolve_base cb w ret bp)) =
           fst ` set ret \<union> fst ` set (fst (resolve_base cb w [] bp))"
proof -
  obtain base pattern where sp: "SplitPattern bp = (base, pattern)"
    by (cases "SplitPattern bp")
  obtain ms e where gw: "GlobWalk_fs w base pattern = (ms, e)"
    by (cases "GlobWalk_fs w base pattern")
  have "fst ` set (fst (walk_matches (cb w base (patternUsed pattern)) ret ms e)) =
          fst ` set ret
          \<union> fst ` set (fst (walk_matches (cb w base (patternUsed pattern)) [] ms e))"
    by (rule walk_matches_keys) (rule cb)
  then show ?thesis
    by (simp add: resolve_base_def GlobWalk_def sp gw)
qed

lemma resolve_foldl_keys:
  assumes cb: "\<And>base used ret p.
      fst ` set (fst (cb w base used ret p)) =
        fst ` set ret \<union> fst ` set (fst (cb w base used [] p))
      \<and> snd (cb w base used ret p) = snd (cb w base used [] p)"
  shows "fst ` set (foldl (\<lambda>ret bp. fst (resolve_base cb w ret bp)) ret bases) =
           fst ` set ret \<union> (\<Union>bp\<in>set bases. fst ` set (fst (resolve_base cb w [] bp)))"
proof (induction bases arbitrary: ret)
  case Nil
  show ?case by simp
next
  case (Cons b bs)
  have "fst ` set (fst (resolve_base cb w ret b)) =
          fst ` set ret \<union> fst ` set (fst (resolve_base cb w [] b))"
    by (rule resolve_base_keys) (rule cb)
  with Cons.IH [of "fst (resolve_base cb w ret b)"] show ?case by auto
qed

lemma resolve_all_keys:
  assumes cb: "\<And>base used ret p.
      fst ` set (fst (cb w base used ret p)) =
        fst ` set ret \<union> fst ` set (fst (cb w base used [] p))
      \<and> snd (cb w base used ret p) = snd (cb w base used [] p)"
  shows "fst ` set (resolve_all cb w bases) =
           (\<Union>bp\<in>set bases. fst ` set (fst (resolve_base cb w [] bp)))"
  unfolding resolve_all_def using resolve_foldl_keys [of cb w "[]" bases, OF cb] by simp

lemma FullPath_range_values:
  assumes "keyed ret"
  shows "FullPath ` set (range_values w ret) = fst ` set ret"
proof -
  have s: "set (range_values w ret) = set (map snd ret)"
    unfolding range_values_def by (rule mset_eq_setD) (rule mset_pick_order)
  have "FullPath ` set (range_values w ret) = FullPath ` set (map snd ret)"
    by (simp only: s)
  also have "\<dots> = set (map FullPath (map snd ret))"
    by (simp only: set_map)
  also have "\<dots> = set (map fst ret)"
    by (simp only: keyed_FullPath [OF assms])
  also have "\<dots> = fst ` set ret"
    by (simp only: set_map)
  finally show ?thesis .
qed

lemma set_sort_Slice: "set (sort_Slice lt xs) = set xs"
  by (rule mset_eq_setD) (rule mset_sort_Slice)

text \<open>The full paths of the result are the keys the base patterns store.\<close>

lemma FullPath_set_main:
  "FullPath ` set (fst (findProjectDirectories_main w cfg)) =
     (\<Union>bp\<in>set (ProjectBase cfg). stored_by callback_main w bp)"
proof -
  have km: "keyed (resolve_all callback_main w (ProjectBase cfg))"
    by (rule keyed_resolve_all) (rule keyed_callback_main)
  have "FullPath ` set (fst (findProjectDirectories_main w cfg)) =
          fst ` set (resolve_all callback_main w (ProjectBase cfg))"
    by (simp add: findProjectDirectories_main_def Let_def FullPath_range_values [OF km])
  also have "\<dots> = (\<Union>bp\<in>set (ProjectBase cfg).
                      fst ` set (fst (resolve_base callback_main w [] bp)))"
    by (rule resolve_all_keys) (rule callback_main_keys)
  finally show ?thesis by (simp only: stored_by_def)
qed

lemma FullPath_set_rev:
  "FullPath ` set (fst (findProjectDirectories_rev w cfg)) =
     (\<Union>bp\<in>set (ProjectBase cfg). stored_by callback_rev w bp)"
proof -
  have kr: "keyed (resolve_all callback_rev w (ProjectBase cfg))"
    by (rule keyed_resolve_all) (rule keyed_callback_rev)
  have "FullPath ` set (fst (findProjectDirectories_rev w cfg)) =
          fst ` set (resolve_all callback_rev w (ProjectBase cfg))"
    by (simp add: findProjectDirectories_rev_def Let_def set_sort_Slice
          FullPath_range_values [OF kr])
  also have "\<dots> = (\<Union>bp\<in>set (ProjectBase cfg).
                      fst ` set (fst (resolve_base callback_rev w [] bp)))"
    by (rule resolve_all_keys) (rule callback_rev_keys)
  finally show ?thesis by (simp only: stored_by_def)
qed

lemma distinct_FullPath_main:
  "distinct (map FullPath (fst (findProjectDirectories_main w cfg)))"
proof -
  have "keyed (resolve_all callback_main w (ProjectBase cfg))"
    by (rule keyed_resolve_all) (rule keyed_callback_main)
  then show ?thesis
    by (simp add: findProjectDirectories_main_def Let_def distinct_FullPath_range)
qed

lemma distinct_FullPath_rev:
  "distinct (map FullPath (fst (findProjectDirectories_rev w cfg)))"
proof -
  have "keyed (resolve_all callback_rev w (ProjectBase cfg))"
    by (rule keyed_resolve_all) (rule keyed_callback_rev)
  then have d:
    "distinct (map FullPath (range_values w (resolve_all callback_rev w (ProjectBase cfg))))"
    by (rule distinct_FullPath_range)
  have "distinct (map FullPath
          (sort_Slice (name_less w)
             (range_values w (resolve_all callback_rev w (ProjectBase cfg)))))"
    using d distinct_map_mset [OF mset_sort_Slice, of FullPath "name_less w"] by simp
  then show ?thesis
    by (simp add: findProjectDirectories_rev_def Let_def)
qed

lemma count_distinct_map:
  "distinct (map f xs) \<Longrightarrow>
   length (filter (\<lambda>x. f x = y) xs) = (if y \<in> f ` set xs then 1 else 0)"
  by (induction xs) auto

text \<open>
  Claim C1. Whatever the configuration, the walk results and the order in which the map
  is ranged over, the slice returned by \<^verbatim>\<open>findProjectDirectories\<close> holds a full path once
  when some base pattern stores it, however many of them do, and not at all otherwise, in
  \<^verbatim>\<open>main.go\<close> and in the revised file alike.
\<close>

theorem C1_dedup_by_fullpath:
  "length (filter (\<lambda>p. FullPath p = fullPath) (fst (findProjectDirectories_main w cfg))) =
     (if fullPath \<in> (\<Union>bp\<in>set (ProjectBase cfg). stored_by callback_main w bp) then 1 else 0)
   \<and> length (filter (\<lambda>p. FullPath p = fullPath) (fst (findProjectDirectories_rev w cfg))) =
     (if fullPath \<in> (\<Union>bp\<in>set (ProjectBase cfg). stored_by callback_rev w bp) then 1 else 0)"
  using count_distinct_map [OF distinct_FullPath_main, of fullPath w cfg]
        count_distinct_map [OF distinct_FullPath_rev, of fullPath w cfg]
  by (simp only: FullPath_set_main FullPath_set_rev)

text \<open>
  Two base patterns that both find \<^verbatim>\<open>/home/u/code/project-a\<close>: the result holds it
  once.
\<close>

theorem C1_dedup_by_fullpath_witness:
  "''/home/u/code/project-a'' \<in> stored_by callback_rev world0 ''/home/u/code/**/{.git}''
   \<and> ''/home/u/code/project-a'' \<in> stored_by callback_rev world0 ''/home/u/**/{.git}''
   \<and> length (filter (\<lambda>p. FullPath p = ''/home/u/code/project-a'')
        (fst (findProjectDirectories_rev world0
           \<lparr>ProjectBase = [''/home/u/code/**/{.git}'', ''/home/u/**/{.git}'']\<rparr>))) = 1"
proof (intro conjI)
  show a: "''/home/u/code/project-a'' \<in> stored_by callback_rev world0 ''/home/u/code/**/{.git}''"
    by code_simp
  show "''/home/u/code/project-a'' \<in> stored_by callback_rev world0 ''/home/u/**/{.git}''"
    by code_simp
  have u: "''/home/u/code/project-a'' \<in>
      (\<Union>bp\<in>set (ProjectBase \<lparr>ProjectBase = [''/home/u/code/**/{.git}'', ''/home/u/**/{.git}'']\<rparr>).
          stored_by callback_rev world0 bp)"
    by (rule UN_I [of "''/home/u/code/**/{.git}''"]) (simp, rule a)
  note eq = C1_dedup_by_fullpath
      [of "''/home/u/code/project-a''" world0
          "\<lparr>ProjectBase = [''/home/u/code/**/{.git}'', ''/home/u/**/{.git}'']\<rparr>",
       THEN conjunct2]
  show "length (filter (\<lambda>p. FullPath p = ''/home/u/code/project-a'')
        (fst (findProjectDirectories_rev world0
           \<lparr>ProjectBase = [''/home/u/code/**/{.git}'', ''/home/u/**/{.git}'']\<rparr>))) = 1"
    by (subst eq) (simp only: u if_True)
qed

subsection \<open>Names and full paths of glob matches\<close>

text \<open>
  Claim C2. A match with a directory part, for which the home-relative path can be
  computed, is stored by both files under that directory: name \<open>path.Dir p\<close>, full
  path \<open>path.Join base (path.Dir p)\<close>. For a match directly under the base the revised
  file joins the base with the name it has chosen: the base \<^verbatim>\<open>/home/u/code\<close> and the
  match \<^verbatim>\<open>.git\<close> of the pattern \<^verbatim>\<open>**/{.git}\<close> give the full path
  \<^verbatim>\<open>/home/u/code/code\<close>, where the directory that holds the match, and the full path
  that \<^verbatim>\<open>main.go\<close> computes, is \<^verbatim>\<open>/home/u/code\<close>.
\<close>

theorem C2_rev_direct_match_full_path:
  "(Contains p ''/'' \<and> filepath_Rel w (homedir w) (path_Join [base, path_Dir p]) = Inr rel \<longrightarrow>
      callback_main w base True ret p =
        (AList.update (path_Join [base, path_Dir p])
           \<lparr>Name = path_Dir p, FullPath = path_Join [base, path_Dir p], HomePath = rel\<rparr> ret,
         None)
      \<and> callback_rev w base True ret p =
        (AList.update (path_Join [base, path_Dir p])
           \<lparr>Name = path_Dir p, FullPath = path_Join [base, path_Dir p], HomePath = rel\<rparr> ret,
         None))
   \<and> patternUsed ''**/{.git}''
   \<and> \<not> Contains ''.git'' ''/''
   \<and> callback_rev world0 ''/home/u/code'' (patternUsed ''**/{.git}'') [] ''.git'' =
       ([(''/home/u/code/code'',
          \<lparr>Name = ''code'', FullPath = ''/home/u/code/code'', HomePath = ''code/code''\<rparr>)],
        None)
   \<and> path_Dir (path_Join [''/home/u/code'', ''.git'']) = ''/home/u/code''
   \<and> map fst (fst (callback_main world0 ''/home/u/code'' (patternUsed ''**/{.git}'') [] ''.git''))
       = [''/home/u/code'']"
proof (intro conjI impI)
  assume a: "Contains p ''/'' \<and>
    filepath_Rel w (homedir w) (path_Join [base, path_Dir p]) = Inr rel"
  then show "callback_main w base True ret p =
        (AList.update (path_Join [base, path_Dir p])
           \<lparr>Name = path_Dir p, FullPath = path_Join [base, path_Dir p], HomePath = rel\<rparr> ret,
         None)"
    by (simp add: callback_main_def Let_def)
  from a show "callback_rev w base True ret p =
        (AList.update (path_Join [base, path_Dir p])
           \<lparr>Name = path_Dir p, FullPath = path_Join [base, path_Dir p], HomePath = rel\<rparr> ret,
         None)"
    by (simp add: callback_rev_def project_name_rev_def Let_def)
next
  show "patternUsed ''**/{.git}''"
    by code_simp
  show "\<not> Contains ''.git'' ''/''"
    by code_simp
  show "callback_rev world0 ''/home/u/code'' (patternUsed ''**/{.git}'') [] ''.git'' =
       ([(''/home/u/code/code'',
          \<lparr>Name = ''code'', FullPath = ''/home/u/code/code'', HomePath = ''code/code''\<rparr>)],
        None)"
    by code_simp
  show "path_Dir (path_Join [''/home/u/code'', ''.git'']) = ''/home/u/code''"
    by code_simp
  show "map fst (fst (callback_main world0 ''/home/u/code'' (patternUsed ''**/{.git}'') [] ''.git''))
       = [''/home/u/code'']"
    by code_simp
qed

text \<open>The example of the specification: base \<^verbatim>\<open>/home/u/code\<close>, match
  \<^verbatim>\<open>project-a/.git\<close>.\<close>

theorem C2_rev_direct_match_full_path_witness:
  "callback_main world0 ''/home/u/code'' True [] ''project-a/.git'' =
     ([(''/home/u/code/project-a'',
        \<lparr>Name = ''project-a'', FullPath = ''/home/u/code/project-a'',
         HomePath = ''code/project-a''\<rparr>)], None)
   \<and> callback_rev world0 ''/home/u/code'' True [] ''project-a/.git'' =
     ([(''/home/u/code/project-a'',
        \<lparr>Name = ''project-a'', FullPath = ''/home/u/code/project-a'',
         HomePath = ''code/project-a''\<rparr>)], None)"
proof -
  have dir: "path_Dir ''project-a/.git'' = ''project-a''"
    by code_simp
  have full: "path_Join [''/home/u/code'', ''project-a''] = ''/home/u/code/project-a''"
    by code_simp
  have rel: "filepath_Rel world0 (homedir world0)
               (path_Join [''/home/u/code'', path_Dir ''project-a/.git'']) = Inr ''code/project-a''"
    unfolding dir full by code_simp
  have slash: "Contains ''project-a/.git'' ''/''"
    by code_simp
  note both = C2_rev_direct_match_full_path
      [of "''project-a/.git''" world0 "''/home/u/code''" "''code/project-a''" "[]",
       THEN conjunct1, THEN mp, OF conjI [OF slash rel]]
  have m: "callback_main world0 ''/home/u/code'' True [] ''project-a/.git'' =
      (AList.update (path_Join [''/home/u/code'', path_Dir ''project-a/.git''])
         \<lparr>Name = path_Dir ''project-a/.git'',
          FullPath = path_Join [''/home/u/code'', path_Dir ''project-a/.git''],
          HomePath = ''code/project-a''\<rparr> [], None)"
    using both by (rule conjunct1)
  have r: "callback_rev world0 ''/home/u/code'' True [] ''project-a/.git'' =
      (AList.update (path_Join [''/home/u/code'', path_Dir ''project-a/.git''])
         \<lparr>Name = path_Dir ''project-a/.git'',
          FullPath = path_Join [''/home/u/code'', path_Dir ''project-a/.git''],
          HomePath = ''code/project-a''\<rparr> [], None)"
    using both by (rule conjunct2)
  show ?thesis
    using m r unfolding dir full by simp
qed

subsection \<open>A marker directly under the base\<close>

text \<open>In the revised file such a match is named by \<open>path.Base base\<close>, which is never
  empty.\<close>

lemma path_Base_not_empty: "path_Base base \<noteq> []"
  by (simp add: path_Base_def Let_def)

lemma name_rev_under_base:
  "\<not> Contains p ''/'' \<Longrightarrow> project_name_rev base True p = path_Base base"
  by (simp add: project_name_rev_def)

text \<open>
  Claim C3. For the base pattern \<^verbatim>\<open>/home/u/code/{.git}\<close> and the match \<^verbatim>\<open>.git\<close>,
  \<^verbatim>\<open>main.go\<close> names the project \<open>.\<close>; the revised file names it \<open>code\<close>, the last
  component of the base.
\<close>

theorem C3_main_names_dot:
  "fst (findProjectDirectories_main world0 \<lparr>ProjectBase = [''/home/u/code/{.git}'']\<rparr>) =
     [\<lparr>Name = ''.'', FullPath = ''/home/u/code'', HomePath = ''code''\<rparr>]
   \<and> fst (findProjectDirectories_rev world0 \<lparr>ProjectBase = [''/home/u/code/{.git}'']\<rparr>) =
     [\<lparr>Name = ''code'', FullPath = ''/home/u/code/code'', HomePath = ''code/code''\<rparr>]"
  by code_simp

subsection \<open>Literal base patterns\<close>

lemma callback_rev_literal:
  "filepath_Rel w (homedir w) (path_Join [base, p]) = Inr rel \<Longrightarrow>
   callback_rev w base False ret p =
     (AList.update (path_Join [base, p])
        \<lparr>Name = p, FullPath = path_Join [base, p], HomePath = rel\<rparr> ret, None)"
  by (simp add: callback_rev_def project_name_rev_def Let_def)

lemma callback_main_literal: "callback_main w base False ret p = (ret, None)"
  by (simp add: callback_main_def)

text \<open>
  Claim C4. For the literal base pattern \<^verbatim>\<open>/home/u/work/notes\<close> the walk matches
  \<^verbatim>\<open>notes\<close>; the revised file returns it as a project of that name, \<^verbatim>\<open>main.go\<close>
  returns nothing.
\<close>

theorem C4_main_drops_literal:
  "\<not> patternUsed ''notes''
   \<and> fst (GlobWalk_fs world0 ''/home/u/work'' ''notes'') = [''notes'']
   \<and> fst (findProjectDirectories_main world0 \<lparr>ProjectBase = [''/home/u/work/notes'']\<rparr>) = []
   \<and> fst (findProjectDirectories_rev world0 \<lparr>ProjectBase = [''/home/u/work/notes'']\<rparr>) =
       [\<lparr>Name = ''notes'', FullPath = ''/home/u/work/notes'', HomePath = ''work/notes''\<rparr>]"
  by code_simp

subsection \<open>Session orchestrator\<close>

lemmas orch_defs = listing_def listing_failed_def cycle_events_def create_rev_def
  create_main_def client_verb_def runTmuxCommand_rev_def runTmuxCommand_main_def Let_def

lemmas ex_defs = world_tmux_def world0_def tmux_live_def tmux_fresh_def tmux_dot_def
  tmux_none_def server_def
  project_a_def site_def sessionExists_def new_session_args_def bool_str_def nl_def
  HasPrefix_def join_space_def














text \<open>
  Claim C6. With a session named after the project and \<^verbatim>\<open>TMUX\<close> unset, \<^verbatim>\<open>main.go\<close>
  runs the listing and \<^verbatim>\<open>reset\<close> and prints the attach command line without running
  it; the revised file runs \<^verbatim>\<open>tmux attach-session\<close>. Neither runs \<^verbatim>\<open>new-session\<close>.
\<close>

theorem C6_main_prints_attach:
  "sessionExists (listing (world_tmux tmux_live) 0) project_a
   \<and> Getenv_TMUX (world_tmux tmux_live) = []
   \<and> startOrAttachToTmux_main (world_tmux tmux_live) project_a 0 [] =
     Some (None,
       [EvExec [''tmux'', ''list-sessions''], EvPrint (''false'' @ nl), EvExec [''reset''],
        EvPrint ''tmux attach-session -t project-a''])
   \<and> startOrAttachToTmux_rev (world_tmux tmux_live) project_a 0 [] =
     Some (None,
       [EvExec [''tmux'', ''list-sessions''], EvPrint (''false'' @ nl),
        EvExec [''tmux'', ''attach-session'', ''-t'', ''project-a'']])
   \<and> creations
       [EvExec [''tmux'', ''list-sessions''], EvPrint (''false'' @ nl), EvExec [''reset''],
        EvPrint ''tmux attach-session -t project-a''] = 0
   \<and> \<not> list_ex is_attach
       [EvExec [''tmux'', ''list-sessions''], EvPrint (''false'' @ nl), EvExec [''reset''],
        EvPrint ''tmux attach-session -t project-a'']"
proof (intro conjI)
  show "creations
       [EvExec [''tmux'', ''list-sessions''], EvPrint (''false'' @ nl), EvExec [''reset''],
        EvPrint ''tmux attach-session -t project-a''] = 0"
    by code_simp
  show "\<not> list_ex is_attach
       [EvExec [''tmux'', ''list-sessions''], EvPrint (''false'' @ nl), EvExec [''reset''],
        EvPrint ''tmux attach-session -t project-a'']"
    by code_simp
  show "sessionExists (listing (world_tmux tmux_live) 0) project_a"
    by (simp add: orch_defs ex_defs)
  show "Getenv_TMUX (world_tmux tmux_live) = []"
    by (simp add: ex_defs)
  show "startOrAttachToTmux_main (world_tmux tmux_live) project_a 0 [] =
     Some (None,
       [EvExec [''tmux'', ''list-sessions''], EvPrint (''false'' @ nl), EvExec [''reset''],
        EvPrint ''tmux attach-session -t project-a''])"
    by (subst startOrAttachToTmux_main.simps) (simp add: orch_defs ex_defs)
  show "startOrAttachToTmux_rev (world_tmux tmux_live) project_a 0 [] =
     Some (None,
       [EvExec [''tmux'', ''list-sessions''], EvPrint (''false'' @ nl),
        EvExec [''tmux'', ''attach-session'', ''-t'', ''project-a'']])"
    by (subst startOrAttachToTmux_rev.simps) (simp add: orch_defs ex_defs)
qed

subsection \<open>No base pattern\<close>

text \<open>
  Claim C7. When the configuration file loads and its entries followed by those of the
  \<^verbatim>\<open>--base\<close> flag are no entries at all, the program prints one line and exits with
  status 1; no walk, selection or command comes before.
\<close>

theorem C7_no_base_exits:
  assumes "normalizePath w (flag_config w) = Inr cfgPath"
    and "loadConfig w cfgPath = Inr config"
    and "ProjectBase config @ flag_base w = []"
  shows "main_main w = Some (1, [EvPrint (''Error: No project base path provided'' @ nl)])
       \<and> main_rev w = Some (1, [EvPrint (''Error: No project base path provided'' @ nl)])"
  using assms
  by (simp add: main_main_def main_rev_def main_prefix_def mergeFlagsWithConfig_def)

theorem C7_no_base_exits_witness:
  "main_main world0 = Some (1, [EvPrint (''Error: No project base path provided'' @ nl)])
   \<and> main_rev world0 = Some (1, [EvPrint (''Error: No project base path provided'' @ nl)])"
proof -
  have n: "normalizePath world0 (flag_config world0) = Inr ''/home/u/.config/tmux/tmuxer.yaml''"
    by code_simp
  have l: "loadConfig world0 ''/home/u/.config/tmux/tmuxer.yaml'' = Inr \<lparr>ProjectBase = []\<rparr>"
    by code_simp
  have e: "ProjectBase \<lparr>ProjectBase = []\<rparr> @ flag_base world0 = []"
    by code_simp
  show ?thesis by (rule C7_no_base_exits [OF n l e])
qed

subsection \<open>Path normalizer\<close>

text \<open>
  Claim C8, as amended. \<^verbatim>\<open>normalizePath\<close> fails exactly when the path left after the
  two expansions is not rooted and the working directory cannot be had. A home directory
  that cannot be determined is no failure: it expands to the empty string.
\<close>

theorem C8_fails_iff_no_cwd:
  "(\<exists>err. normalizePath w path = Inl err) \<longleftrightarrow>
   (\<not> HasPrefix (expand_HOME w (expand_tilde w path)) ''/'' \<and> Getwd w = None)"
  by (auto simp: normalizePath_def filepath_Abs_def split: option.splits)

theorem C8_fails_iff_no_cwd_witness:
  "\<exists>err. normalizePath (world0\<lparr>UserHomeDir := None, Getwd := None\<rparr>) ''~x'' = Inl err"
proof -
  have "\<not> HasPrefix (expand_HOME (world0\<lparr>UserHomeDir := None, Getwd := None\<rparr>)
            (expand_tilde (world0\<lparr>UserHomeDir := None, Getwd := None\<rparr>) ''~x'')) ''/''
        \<and> Getwd (world0\<lparr>UserHomeDir := None, Getwd := None\<rparr>) = None"
    by code_simp
  then show ?thesis by (rule iffD2 [OF C8_fails_iff_no_cwd])
qed

text \<open>With no home directory, \<^verbatim>\<open>~/x\<close> normalizes to \<^verbatim>\<open>/x\<close>.\<close>

theorem C8_counterexample:
  "HasPrefix ''~/x'' ''~''
   \<and> UserHomeDir (world0\<lparr>UserHomeDir := None\<rparr>) = None
   \<and> normalizePath (world0\<lparr>UserHomeDir := None\<rparr>) ''~/x'' = Inr ''/x''"
  by code_simp

subsection \<open>Walk errors\<close>

text \<open>
  The lines the revised file prints come from the comparison function of the sort, which
  prints the name of the project it moves.
\<close>

lemma insert_prints_names: "set (insert_prints lt x pre) \<subseteq> {EvPrint (Name x @ nl)}"
  by (induction pre) auto

lemma sort_prints_names:
  "set (sort_prints lt pre xs) \<subseteq> (\<lambda>p. EvPrint (Name p @ nl)) ` set xs"
proof (induction xs arbitrary: pre)
  case Nil
  show ?case by simp
next
  case (Cons x xs)
  have "set (insert_prints lt x pre) \<subseteq> {EvPrint (Name x @ nl)}"
    by (rule insert_prints_names)
  moreover have "set (sort_prints lt (insert_left lt x pre) xs)
      \<subseteq> (\<lambda>p. EvPrint (Name p @ nl)) ` set xs"
    by (rule Cons.IH)
  ultimately show ?case by auto
qed

text \<open>
  Claim C9, as amended. \<^verbatim>\<open>findProjectDirectories\<close> never returns an error, and the
  full paths it returns are exactly those that the walk of each base pattern stores when
  run alone: a walk that ends in an error loses only its own remaining matches. Nothing
  reports the error: \<^verbatim>\<open>main.go\<close> prints nothing here, and each line the revised file
  prints is the name of a returned project.
\<close>

theorem C9_errors_dropped_bases_independent:
  "fst (snd (findProjectDirectories_main w cfg)) = None
   \<and> fst (snd (findProjectDirectories_rev w cfg)) = None
   \<and> FullPath ` set (fst (findProjectDirectories_main w cfg)) =
       (\<Union>bp\<in>set (ProjectBase cfg). stored_by callback_main w bp)
   \<and> FullPath ` set (fst (findProjectDirectories_rev w cfg)) =
       (\<Union>bp\<in>set (ProjectBase cfg). stored_by callback_rev w bp)
   \<and> snd (snd (findProjectDirectories_main w cfg)) = walk_events (ProjectBase cfg)
   \<and> take (length (ProjectBase cfg)) (snd (snd (findProjectDirectories_rev w cfg))) =
       walk_events (ProjectBase cfg)
   \<and> set (drop (length (ProjectBase cfg)) (snd (snd (findProjectDirectories_rev w cfg))))
       \<subseteq> (\<lambda>p. EvPrint (Name p @ nl)) ` set (fst (findProjectDirectories_rev w cfg))"
proof (intro conjI)
  show "fst (snd (findProjectDirectories_main w cfg)) = None"
    by (simp add: findProjectDirectories_main_def Let_def)
  show "fst (snd (findProjectDirectories_rev w cfg)) = None"
    by (simp add: findProjectDirectories_rev_def Let_def)
  show "FullPath ` set (fst (findProjectDirectories_main w cfg)) =
       (\<Union>bp\<in>set (ProjectBase cfg). stored_by callback_main w bp)"
    by (rule FullPath_set_main)
  show "FullPath ` set (fst (findProjectDirectories_rev w cfg)) =
       (\<Union>bp\<in>set (ProjectBase cfg). stored_by callback_rev w bp)"
    by (rule FullPath_set_rev)
  show "snd (snd (findProjectDirectories_main w cfg)) = walk_events (ProjectBase cfg)"
    by (simp add: findProjectDirectories_main_def Let_def)
  show "take (length (ProjectBase cfg)) (snd (snd (findProjectDirectories_rev w cfg))) =
       walk_events (ProjectBase cfg)"
    by (simp add: findProjectDirectories_rev_def Let_def walk_events_def)
  show "set (drop (length (ProjectBase cfg)) (snd (snd (findProjectDirectories_rev w cfg))))
       \<subseteq> (\<lambda>p. EvPrint (Name p @ nl)) ` set (fst (findProjectDirectories_rev w cfg))"
    using sort_prints_names [of "name_less w" "[]"
        "range_values w (resolve_all callback_rev w (ProjectBase cfg))"]
    by (simp add: findProjectDirectories_rev_def Let_def walk_events_def set_sort_Slice)
qed

theorem C9_errors_dropped_bases_independent_witness:
  "''/home/u/solo/app'' \<in> FullPath ` set (fst (findProjectDirectories_rev world0
       \<lparr>ProjectBase = [''/home/u/bad/['', ''/home/u/solo/**/{.git}'']\<rparr>))"
proof -
  have r: "''/home/u/solo/app'' \<in> stored_by callback_rev world0 ''/home/u/solo/**/{.git}''"
    by code_simp
  have u: "''/home/u/solo/app'' \<in>
      (\<Union>bp\<in>set (ProjectBase \<lparr>ProjectBase = [''/home/u/bad/['', ''/home/u/solo/**/{.git}'']\<rparr>).
          stored_by callback_rev world0 bp)"
    by (rule UN_I [of "''/home/u/solo/**/{.git}''"]) (simp, rule r)
  note eq = C9_errors_dropped_bases_independent
      [of world0 "\<lparr>ProjectBase = [''/home/u/bad/['', ''/home/u/solo/**/{.git}'']\<rparr>",
       THEN conjunct2, THEN conjunct2, THEN conjunct2, THEN conjunct1]
  show ?thesis
    by (subst eq) (rule u)
qed

text \<open>
  The error is reported nowhere: the walk of \<^verbatim>\<open>/home/u/bad/[\<close> ends in an error, and
  the call returns the project of the other base with a \<^verbatim>\<open>nil\<close> error and prints
  nothing.
\<close>

theorem C9_counterexample:
  "snd (resolve_base callback_main world0 [] ''/home/u/bad/['') = Some ''syntax error in pattern''
   \<and> findProjectDirectories_main world0
       \<lparr>ProjectBase = [''/home/u/bad/['', ''/home/u/solo/**/{.git}'']\<rparr> =
     ([\<lparr>Name = ''app'', FullPath = ''/home/u/solo/app'', HomePath = ''solo/app''\<rparr>], None,
      [EvWalk ''/home/u/bad'' ''['', EvWalk ''/home/u/solo'' ''**/{.git}''])
   \<and> snd (resolve_base callback_rev world0 [] ''/home/u/bad/['') = Some ''syntax error in pattern''
   \<and> findProjectDirectories_rev world0
       \<lparr>ProjectBase = [''/home/u/bad/['', ''/home/u/solo/**/{.git}'']\<rparr> =
     ([\<lparr>Name = ''app'', FullPath = ''/home/u/solo/app'', HomePath = ''solo/app''\<rparr>], None,
      [EvWalk ''/home/u/bad'' ''['', EvWalk ''/home/u/solo'' ''**/{.git}''])"
  by code_simp

subsection \<open>Order of the result\<close>

lemma set_insert_left: "set (insert_left lt x ys) = insert x (set ys)"
  by (induction ys) auto

lemma sorted_insert_left:
  fixes key :: "'a \<Rightarrow> 'k::linorder"
  assumes lt: "\<And>a b. lt a b \<longleftrightarrow> key b < key a"
    and "sorted_wrt (\<lambda>a b. key a \<le> key b) ys"
  shows "sorted_wrt (\<lambda>a b. key a \<le> key b) (insert_left lt x ys)"
  using assms(2)
proof (induction ys)
  case Nil
  then show ?case by simp
next
  case (Cons y ys)
  show ?case
  proof (cases "lt x y")
    case True
    then have "key y \<le> key x" using lt by simp
    with Cons True show ?thesis by (auto simp: set_insert_left)
  next
    case False
    then have "key x \<le> key y" using lt by (simp add: not_less)
    with Cons False show ?thesis by auto
  qed
qed

lemma sorted_foldl_insert:
  fixes key :: "'a \<Rightarrow> 'k::linorder"
  assumes lt: "\<And>a b. lt a b \<longleftrightarrow> key b < key a"
    and "sorted_wrt (\<lambda>a b. key a \<le> key b) acc"
  shows "sorted_wrt (\<lambda>a b. key a \<le> key b) (foldl (\<lambda>pre x. insert_left lt x pre) acc xs)"
  using assms(2)
proof (induction xs arbitrary: acc)
  case Nil
  then show ?case by simp
next
  case (Cons x xs)
  have "sorted_wrt (\<lambda>a b. key a \<le> key b) (insert_left lt x acc)"
    using lt Cons.prems by (rule sorted_insert_left)
  then show ?case using Cons.IH by simp
qed

lemma sorted_sort_Slice:
  fixes key :: "'a \<Rightarrow> 'k::linorder"
  assumes lt: "\<And>a b. lt a b \<longleftrightarrow> key b < key a"
  shows "sorted_wrt (\<lambda>a b. key b \<le> key a) (sort_Slice lt xs)"
proof -
  have "sorted_wrt (\<lambda>a b. key a \<le> key b) (foldl (\<lambda>pre x. insert_left lt x pre) [] xs)"
    using lt by (rule sorted_foldl_insert) simp
  then show ?thesis
    by (simp add: sort_Slice_def sorted_wrt_rev)
qed

text \<open>Nothing the resolver reads depends on the order the map is ranged over.\<close>

lemma callback_rev_seed: "callback_rev (w\<lparr>map_seed := seed\<rparr>) = callback_rev w"
  by (intro ext) (simp add: callback_rev_def homedir_def)

lemma resolve_all_rev_seed:
  "resolve_all callback_rev (w\<lparr>map_seed := seed\<rparr>) bases = resolve_all callback_rev w bases"
  by (simp add: resolve_all_def resolve_base_def GlobWalk_def callback_rev_seed)

lemma name_less_seed: "name_less (w\<lparr>map_seed := seed\<rparr>) = name_less w"
  by (intro ext) (simp add: name_less_def ToLower_def)

text \<open>Two descending lists of the same elements are equal when no two keys are.\<close>

lemma sorted_wrt_key_unique:
  fixes key :: "'a \<Rightarrow> 'k::linorder"
  assumes m: "mset xs = mset ys"
    and sx: "sorted_wrt (\<lambda>a b. key b \<le> key a) xs"
    and sy: "sorted_wrt (\<lambda>a b. key b \<le> key a) ys"
    and d: "distinct (map key xs)"
  shows "xs = ys"
proof -
  have s: "set xs = set ys"
    using m by (rule mset_eq_setD)
  have dy: "distinct (map key ys)"
    using d distinct_map_mset [OF m, of key] by simp
  have a: "sorted (rev (map key xs))" and b: "sorted (rev (map key ys))"
    using sx sy by (simp_all add: sorted_wrt_rev sorted_wrt_map)
  have da: "distinct (rev (map key xs))" and db: "distinct (rev (map key ys))"
    using d dy by simp_all
  have "set (rev (map key xs)) = set (rev (map key ys))"
    using s by simp
  with a da b db have "rev (map key xs) = rev (map key ys)"
    by (rule sorted_distinct_set_unique)
  then have e: "map key xs = map key ys"
    by simp
  have "inj_on key (set xs \<union> set ys)"
    using d s by (simp add: distinct_map)
  then show ?thesis
    using e by (simp add: inj_on_map_eq_map)
qed

text \<open>
  Claim C10, as amended. In the slice the revised \<^verbatim>\<open>findProjectDirectories\<close> returns,
  the lower-cased names descend, whatever the walk hands over and whatever the order of
  the map. When no two lower-cased names are equal, the slice is the same for every order
  of the map.
\<close>

theorem C10_sorted_descending:
  "(\<forall>i j. i < j \<longrightarrow> j < length (fst (findProjectDirectories_rev w cfg)) \<longrightarrow>
      ToLower w (Name (fst (findProjectDirectories_rev w cfg) ! j))
        \<le> ToLower w (Name (fst (findProjectDirectories_rev w cfg) ! i)))
   \<and> (distinct (map (\<lambda>p. ToLower w (Name p)) (fst (findProjectDirectories_rev w cfg))) \<longrightarrow>
        fst (findProjectDirectories_rev (w\<lparr>map_seed := seed\<rparr>) cfg) =
          fst (findProjectDirectories_rev w cfg))"
proof (intro conjI allI impI)
  let ?key = "\<lambda>p. ToLower w (Name p)"
  let ?ret = "resolve_all callback_rev w (ProjectBase cfg)"
  let ?res = "fst (findProjectDirectories_rev w cfg)"
  let ?res' = "fst (findProjectDirectories_rev (w\<lparr>map_seed := seed\<rparr>) cfg)"
  have lt: "\<And>a b. name_less w a b \<longleftrightarrow> ?key b < ?key a"
    by (simp add: name_less_def)
  have r: "?res = sort_Slice (name_less w) (pick_order (map_seed w) (map snd ?ret))"
    by (simp add: findProjectDirectories_rev_def Let_def range_values_def)
  have r': "?res' = sort_Slice (name_less w) (pick_order seed (map snd ?ret))"
    by (simp add: findProjectDirectories_rev_def Let_def range_values_def
          resolve_all_rev_seed name_less_seed)
  have s: "sorted_wrt (\<lambda>a b. ?key b \<le> ?key a) ?res"
    unfolding r using lt by (rule sorted_sort_Slice)
  have s': "sorted_wrt (\<lambda>a b. ?key b \<le> ?key a) ?res'"
    unfolding r' using lt by (rule sorted_sort_Slice)
  {
    fix i j
    assume "i < j" "j < length ?res"
    with s show "?key (?res ! j) \<le> ?key (?res ! i)"
      by (simp add: sorted_wrt_iff_nth_less)
  }
  {
    assume d: "distinct (map ?key ?res)"
    have m: "mset ?res = mset ?res'"
      unfolding r r' by (simp only: mset_sort_Slice mset_pick_order)
    from m s s' d have "?res = ?res'"
      by (rule sorted_wrt_key_unique)
    then show "?res' = ?res"
      by (rule sym)
  }
qed

text \<open>
  Three names of which one starts with a capital, and two that are not ASCII: the order
  is that of the lower-cased names, and it is the same under another order of the map.
\<close>

theorem C10_sorted_descending_witness:
  "map Name (fst (findProjectDirectories_rev world0
       \<lparr>ProjectBase = [''/home/u/code/**/{.git}'']\<rparr>)) = [''Zeta'', ''project-a'', ''code'']
   \<and> map Name (fst (findProjectDirectories_rev world0
       \<lparr>ProjectBase = [''/home/u/docs/**/{.git}'']\<rparr>)) = [Ecole, ca]
   \<and> ToLower world0 ''Zeta'' = ''zeta''
   \<and> ToLower world0 (Name (fst (findProjectDirectories_rev world0
         \<lparr>ProjectBase = [''/home/u/code/**/{.git}'']\<rparr>) ! 1))
       \<le> ToLower world0 (Name (fst (findProjectDirectories_rev world0
         \<lparr>ProjectBase = [''/home/u/code/**/{.git}'']\<rparr>) ! 0))
   \<and> fst (findProjectDirectories_rev (world0\<lparr>map_seed := [2, 0]\<rparr>)
         \<lparr>ProjectBase = [''/home/u/code/**/{.git}'']\<rparr>) =
       fst (findProjectDirectories_rev world0 \<lparr>ProjectBase = [''/home/u/code/**/{.git}'']\<rparr>)"
proof (intro conjI)
  note t = C10_sorted_descending
      [of world0 "\<lparr>ProjectBase = [''/home/u/code/**/{.git}'']\<rparr>" "[2, 0]"]
  show "map Name (fst (findProjectDirectories_rev world0
       \<lparr>ProjectBase = [''/home/u/code/**/{.git}'']\<rparr>)) = [''Zeta'', ''project-a'', ''code'']"
    by code_simp
  show "map Name (fst (findProjectDirectories_rev world0
       \<lparr>ProjectBase = [''/home/u/docs/**/{.git}'']\<rparr>)) = [Ecole, ca]"
    by code_simp
  show "ToLower world0 ''Zeta'' = ''zeta''"
    by code_simp
  have l: "1 < length (fst (findProjectDirectories_rev world0
       \<lparr>ProjectBase = [''/home/u/code/**/{.git}'']\<rparr>))"
    by code_simp
  from t [THEN conjunct1, THEN spec, THEN spec, THEN mp, THEN mp, OF zero_less_one l]
  show "ToLower world0 (Name (fst (findProjectDirectories_rev world0
         \<lparr>ProjectBase = [''/home/u/code/**/{.git}'']\<rparr>) ! 1))
       \<le> ToLower world0 (Name (fst (findProjectDirectories_rev world0
         \<lparr>ProjectBase = [''/home/u/code/**/{.git}'']\<rparr>) ! 0))" .
  have d: "distinct (map (\<lambda>p. ToLower world0 (Name p))
       (fst (findProjectDirectories_rev world0 \<lparr>ProjectBase = [''/home/u/code/**/{.git}'']\<rparr>)))"
    by code_simp
  from t [THEN conjunct2, THEN mp, OF d]
  show "fst (findProjectDirectories_rev (world0\<lparr>map_seed := [2, 0]\<rparr>)
         \<lparr>ProjectBase = [''/home/u/code/**/{.git}'']\<rparr>) =
       fst (findProjectDirectories_rev world0 \<lparr>ProjectBase = [''/home/u/code/**/{.git}'']\<rparr>)" .
qed

text \<open>
  Two bases that each hold a repository named \<^verbatim>\<open>project-a\<close> up to case: which of the
  two comes first follows the order of the map.
\<close>

theorem C10_counterexample:
  "map Name (fst (findProjectDirectories_rev world0
       \<lparr>ProjectBase = [''/home/u/code/**/{.git}'', ''/home/u/work/**/{.git}'']\<rparr>)) =
     [''Zeta'', ''project-a'', ''Project-A'', ''code'']
   \<and> map Name (fst (findProjectDirectories_rev (world0\<lparr>map_seed := [3]\<rparr>)
       \<lparr>ProjectBase = [''/home/u/code/**/{.git}'', ''/home/u/work/**/{.git}'']\<rparr>)) =
     [''Zeta'', ''Project-A'', ''project-a'', ''code'']"
  by code_simp

end
